theory Spec2Isabelle
  imports Main "HOL-Library.AList" "HOL-Library.Char_ord" "HOL-Library.List_Lexorder"
begin

section \<open>Volumes of a container: daemon/volumes.go\<close>

text \<open>
  A shallow embedding of \<^verbatim>\<open>daemon/volumes.go\<close>. Go strings are byte strings and are
  modelled as \<^typ>\<open>string\<close>; their order (\<^verbatim>\<open>sort.Strings\<close>) is the lexicographic order
  on lists over the order of character codes. A Go \<^verbatim>\<open>error\<close> is an \<open>error option\<close>,
  \<^verbatim>\<open>nil\<close> being \<^const>\<open>None\<close>. A Go map is an association list read with
  \<^const>\<open>map_of\<close> and written with \<^const>\<open>AList.update\<close>; the order of the list stands for
  the order in which \<^verbatim>\<open>range\<close> enumerates the map, which Go leaves open, so what
  is stated about a loop over a map is stated for every order.
\<close>

subsection \<open>Errors\<close>

datatype errno = ENOENT | EACCES | ENOTDIR | EEXIST | EIO

datatype error =
    MalformedVolumesFrom string
  | ContainerNotFound string
  | InvalidVolumesFromMode string
  | InvalidVolumeSpec string
  | NotAbsolute string
  | DriverGetFailed string errno
  | SysError errno
  | CollaboratorError string

subsection \<open>Strings and paths of the Go library\<close>

text \<open>\<^verbatim>\<open>strings.Split(s, sep)\<close> for a one-byte separator: every separator cuts, and the
  empty string gives one empty field.\<close>

fun Split :: "char \<Rightarrow> string \<Rightarrow> string list" where
  "Split sep [] = [[]]"
| "Split sep (x # xs) =
     (if x = sep then [] # Split sep xs
      else (case Split sep xs of
              [] \<Rightarrow> [[x]]
            | y # ys \<Rightarrow> (x # y) # ys))"

text \<open>\<^verbatim>\<open>strings.SplitN(s, sep, 2)\<close>: cut at the first separator only.\<close>

definition SplitN2 :: "char \<Rightarrow> string \<Rightarrow> string list" where
  "SplitN2 sep s =
     (if sep \<in> set s
      then [takeWhile (\<lambda>c. c \<noteq> sep) s, tl (dropWhile (\<lambda>c. c \<noteq> sep) s)]
      else [s])"

text \<open>\<^verbatim>\<open>filepath.IsAbs\<close> on Unix: the path starts with a slash.\<close>

fun IsAbs :: "string \<Rightarrow> bool" where
  "IsAbs [] = False"
| "IsAbs (c # cs) = (c = CHR ''/'')"

subsection \<open>The Volume struct and the mode table\<close>

record Volume =
  HostPath :: string
  VolPath :: string
  isReadWrite :: bool
  isBindMount :: bool

text \<open>The zero value of the struct, as \<^verbatim>\<open>var vol Volume\<close> gives it.\<close>

definition zeroVolume :: Volume where
  "zeroVolume = \<lparr>HostPath = [], VolPath = [], isReadWrite = False, isBindMount = False\<rparr>"

text \<open>\<^verbatim>\<open>validVolumeMode\<close>: a lookup in the table \<open>{rw: true, ro: true}\<close>, where a
  missing key reads as \<^verbatim>\<open>false\<close>.\<close>

definition validModes :: "(string \<times> bool) list" where
  "validModes = [(''rw'', True), (''ro'', True)]"

definition validVolumeMode :: "string \<Rightarrow> bool" where
  "validVolumeMode mode = (case map_of validModes mode of None \<Rightarrow> False | Some b \<Rightarrow> b)"

subsection \<open>Parsing a bind specification\<close>

text \<open>\<^verbatim>\<open>parseBindVolumeSpec\<close> returns the volume together with the error, as the Go
  function does (the volume built so far accompanies a non-nil error).\<close>

definition parseBindVolumeSpec :: "string \<Rightarrow> Volume \<times> error option" where
  "parseBindVolumeSpec spec =
     (let arr = Split CHR '':'' spec;
          vol = zeroVolume;
          sw = (if length arr = 1 then
                  Inr (vol\<lparr>VolPath := spec, isReadWrite := True\<rparr>)
                else if length arr = 2 then
                  Inr (vol\<lparr>HostPath := arr ! 0, VolPath := arr ! 1, isReadWrite := True\<rparr>)
                else if length arr = 3 then
                  Inr (vol\<lparr>HostPath := arr ! 0, VolPath := arr ! 1,
                       isReadWrite := (validVolumeMode (arr ! 2) \<and> arr ! 2 = ''rw'')\<rparr>)
                else Inl (vol, Some (InvalidVolumeSpec spec)))
      in case sw of
           Inl r \<Rightarrow> r
         | Inr vol' \<Rightarrow>
             if \<not> IsAbs (HostPath vol') then (vol', Some (NotAbsolute (HostPath vol')))
             else (vol', None))"

subsection \<open>Path functions of the Go library\<close>

text \<open>\<^verbatim>\<open>filepath.Clean\<close> on Unix, by path elements: empty elements and \<open>.\<close> are dropped,
  \<open>..\<close> removes the element before it, is dropped at the root and is kept at the front of
  a relative path; the empty result of a relative path is \<open>.\<close>.\<close>

fun joinPath :: "string list \<Rightarrow> string" where
  "joinPath [] = []"
| "joinPath [x] = x"
| "joinPath (x # y # ys) = x @ ''/'' @ joinPath (y # ys)"

definition clean_step :: "bool \<Rightarrow> string list \<Rightarrow> string \<Rightarrow> string list" where
  "clean_step rooted out el =
     (if el = ''..'' then
        (if out \<noteq> [] \<and> last out \<noteq> ''..'' then butlast out
         else if rooted then out
         else out @ [''..''])
      else out @ [el])"

definition Clean :: "string \<Rightarrow> string" where
  "Clean p =
     (if p = [] then ''.''
      else
        let rooted = IsAbs p;
            els = filter (\<lambda>el. el \<noteq> [] \<and> el \<noteq> ''.'') (Split CHR ''/'' p);
            out = foldl (clean_step rooted) [] els
        in if rooted then CHR ''/'' # joinPath out
           else if out = [] then ''.''
           else joinPath out)"

text \<open>\<^verbatim>\<open>filepath.Join\<close>: the elements from the first non-empty one on, joined by slashes
  and cleaned; the empty string when every element is empty.\<close>

definition Join :: "string list \<Rightarrow> string" where
  "Join elem =
     (case dropWhile (\<lambda>e. e = []) elem of
        [] \<Rightarrow> []
      | r # rs \<Rightarrow> Clean (joinPath (r # rs)))"

text \<open>\<^verbatim>\<open>filepath.Dir\<close>: the path up to and including its last slash, cleaned.\<close>

definition Dir :: "string \<Rightarrow> string" where
  "Dir p = Clean (rev (dropWhile (\<lambda>c. c \<noteq> CHR ''/'') (rev p)))"

subsection \<open>The container and its collaborators\<close>

record Mount =
  Source :: string
  Destination :: string
  Writable :: bool
  Private :: bool
  Slave :: bool

text \<open>The fields of \<^verbatim>\<open>Container\<close> that this file reads and writes. \<open>Volumes\<close> and
  \<open>VolumesRW\<close> are the two maps of the volume set; \<open>Config_Volumes\<close> lists the keys of
  \<^verbatim>\<open>Config.Volumes\<close> (a map to the empty struct).\<close>

record Container =
  ResolvConfPath :: string
  HostnamePath :: string
  HostsPath :: string
  Volumes :: "(string \<times> string) list"
  VolumesRW :: "(string \<times> bool) list"
  basefs :: string
  Config_Volumes :: "string list"
  hostConfig_VolumesFrom :: "string list"
  command_Mounts :: "Mount list"

text \<open>The daemon's registry (\<^verbatim>\<open>container.daemon.Get\<close>) and the method
  \<^verbatim>\<open>(*Container).GetVolumes\<close> are defined outside this file; they are parameters.\<close>

record collab =
  daemon_Get :: "string \<Rightarrow> Container option"
  GetVolumes :: "Container \<Rightarrow> error + (string \<times> Volume) list"

subsection \<open>The file system and the volume store\<close>

text \<open>
  What the operating system and the volume store answer is a table per call; every call
  that changes something is appended to \<open>trace\<close> when it is issued, and \<open>fault\<close> says
  which of these calls fail. A successful call updates the tables: a created node exists
  afterwards, a copied directory lists the copied names, a changed owner or mode is read
  back by \<open>stat\<close>. Contents of files, the process' umask and the owner of new nodes
  (here \<open>0\<close>) are not modelled.
\<close>

record fstat =
  st_isdir :: bool
  st_uid :: nat
  st_gid :: nat
  st_mode :: nat

datatype event =
    EvCreateVolume
  | EvMkdirAll string nat
  | EvOpenCreate string nat
  | EvCopyWithTar string string
  | EvChown string nat nat
  | EvChmod string nat

record world =
  stat_of :: "string \<Rightarrow> errno + fstat"
  readdir_of :: "string \<Rightarrow> errno + string list"
  evalsymlinks_of :: "string \<Rightarrow> errno + string"
  followsymlink_of :: "string \<Rightarrow> string \<Rightarrow> errno + string"
  create_of :: "nat \<Rightarrow> errno + string"
  created :: nat
  driver_get_of :: "string \<Rightarrow> string \<times> errno option"
  fault :: "event \<Rightarrow> errno option"
  trace :: "event list"

definition issue :: "event \<Rightarrow> world \<Rightarrow> world" where
  "issue ev w = w\<lparr>trace := trace w @ [ev]\<rparr>"

definition os_IsNotExist :: "errno \<Rightarrow> bool" where
  "os_IsNotExist e = (e = ENOENT)"

definition os_MkdirAll :: "string \<Rightarrow> nat \<Rightarrow> world \<Rightarrow> error option \<times> world" where
  "os_MkdirAll path perm w =
     (let w1 = issue (EvMkdirAll path perm) w in
      case fault w (EvMkdirAll path perm) of
        Some e \<Rightarrow> (Some (SysError e), w1)
      | None \<Rightarrow>
          (case stat_of w path of
             Inr st \<Rightarrow> if st_isdir st then (None, w1) else (Some (SysError ENOTDIR), w1)
           | Inl _ \<Rightarrow>
               (None, w1\<lparr>stat_of := (stat_of w)
                            (path := Inr \<lparr>st_isdir = True, st_uid = 0, st_gid = 0, st_mode = perm\<rparr>),
                          readdir_of := (readdir_of w)(path := Inr [])\<rparr>)))"

text \<open>\<^verbatim>\<open>os.OpenFile(path, os.O_CREATE, perm)\<close> followed by \<^verbatim>\<open>Close\<close>.\<close>

definition os_OpenFile_create :: "string \<Rightarrow> nat \<Rightarrow> world \<Rightarrow> error option \<times> world" where
  "os_OpenFile_create path perm w =
     (let w1 = issue (EvOpenCreate path perm) w in
      case fault w (EvOpenCreate path perm) of
        Some e \<Rightarrow> (Some (SysError e), w1)
      | None \<Rightarrow>
          (case stat_of w path of
             Inr st \<Rightarrow> (None, w1)
           | Inl _ \<Rightarrow>
               (None, w1\<lparr>stat_of := (stat_of w)
                            (path := Inr \<lparr>st_isdir = False, st_uid = 0, st_gid = 0, st_mode = perm\<rparr>)\<rparr>)))"

text \<open>\<^verbatim>\<open>archive.CopyWithTar(src, dst)\<close> for a directory: afterwards \<open>dst\<close> lists its own
  names and those of \<open>src\<close>.\<close>

definition archive_CopyWithTar :: "string \<Rightarrow> string \<Rightarrow> world \<Rightarrow> error option \<times> world" where
  "archive_CopyWithTar src dst w =
     (let w1 = issue (EvCopyWithTar src dst) w in
      case fault w (EvCopyWithTar src dst) of
        Some e \<Rightarrow> (Some (SysError e), w1)
      | None \<Rightarrow>
          (case readdir_of w src of
             Inl e \<Rightarrow> (Some (SysError e), w1)
           | Inr names \<Rightarrow>
               (None, w1\<lparr>readdir_of := (readdir_of w)
                  (dst := Inr (List.union (case readdir_of w dst of Inl _ \<Rightarrow> [] | Inr ds \<Rightarrow> ds)
                                 names))\<rparr>)))"

definition os_Chown :: "string \<Rightarrow> nat \<Rightarrow> nat \<Rightarrow> world \<Rightarrow> error option \<times> world" where
  "os_Chown path uid gid w =
     (let w1 = issue (EvChown path uid gid) w in
      case fault w (EvChown path uid gid) of
        Some e \<Rightarrow> (Some (SysError e), w1)
      | None \<Rightarrow>
          (case stat_of w path of
             Inl e \<Rightarrow> (Some (SysError e), w1)
           | Inr st \<Rightarrow>
               (None, w1\<lparr>stat_of := (stat_of w)(path := Inr (st\<lparr>st_uid := uid, st_gid := gid\<rparr>))\<rparr>)))"

definition os_Chmod :: "string \<Rightarrow> nat \<Rightarrow> world \<Rightarrow> error option \<times> world" where
  "os_Chmod path mode w =
     (let w1 = issue (EvChmod path mode) w in
      case fault w (EvChmod path mode) of
        Some e \<Rightarrow> (Some (SysError e), w1)
      | None \<Rightarrow>
          (case stat_of w path of
             Inl e \<Rightarrow> (Some (SysError e), w1)
           | Inr st \<Rightarrow>
               (None, w1\<lparr>stat_of := (stat_of w)(path := Inr (st\<lparr>st_mode := mode\<rparr>))\<rparr>)))"

text \<open>\<^verbatim>\<open>daemon.volumes.Create\<close>: the store hands out its next identifier and the
  directory that the driver reports for it exists, empty, afterwards.\<close>

definition volumes_Create :: "world \<Rightarrow> (errno + string) \<times> world" where
  "volumes_Create w =
     (let w1 = issue EvCreateVolume w in
      case fault w EvCreateVolume of
        Some e \<Rightarrow> (Inl e, w1)
      | None \<Rightarrow>
          (case create_of w (created w) of
             Inl e \<Rightarrow> (Inl e, w1)
           | Inr ident \<Rightarrow>
               (let dir = fst (driver_get_of w ident)
                in (Inr ident,
                    w1\<lparr>created := Suc (created w),
                       stat_of := (stat_of w)
                         (dir := Inr \<lparr>st_isdir = True, st_uid = 0, st_gid = 0, st_mode = 448\<rparr>),
                       readdir_of := (readdir_of w)(dir := Inr [])\<rparr>))))"

subsection \<open>Mount-point node, content seeding and ownership\<close>

text \<open>\<^verbatim>\<open>(*Volume).isDir\<close>: \<^verbatim>\<open>os.Stat\<close> of the volume's \<open>HostPath\<close>.\<close>

definition isDir :: "Volume \<Rightarrow> world \<Rightarrow> bool \<times> error option" where
  "isDir v w =
     (case stat_of w (HostPath v) of
        Inl e \<Rightarrow> (False, Some (SysError e))
      | Inr st \<Rightarrow> (st_isdir st, None))"

definition createIfNotExists :: "string \<Rightarrow> bool \<Rightarrow> world \<Rightarrow> error option \<times> world" where
  "createIfNotExists destination isdir w =
     (if (case stat_of w destination of Inr _ \<Rightarrow> True | Inl e \<Rightarrow> \<not> os_IsNotExist e)
      then (None, w)
      else if isdir then os_MkdirAll destination 493 w
      else
        (case os_MkdirAll (Dir destination) 493 w of
           (Some err, w1) \<Rightarrow> (Some err, w1)
         | (None, w1) \<Rightarrow>
             (case os_OpenFile_create destination 493 w1 of
                (Some err, w2) \<Rightarrow> (Some err, w2)
              | (None, w2) \<Rightarrow> (None, w2))))"

definition copyOwnership :: "string \<Rightarrow> string \<Rightarrow> world \<Rightarrow> error option \<times> world" where
  "copyOwnership source destination w =
     (case stat_of w source of
        Inl e \<Rightarrow> (Some (SysError e), w)
      | Inr st \<Rightarrow>
          (case os_Chown destination (st_uid st) (st_gid st) w of
             (Some err, w1) \<Rightarrow> (Some err, w1)
           | (None, w1) \<Rightarrow> os_Chmod destination (st_mode st) w1))"

definition copyExistingContents :: "string \<Rightarrow> string \<Rightarrow> world \<Rightarrow> error option \<times> world" where
  "copyExistingContents source destination w =
     (case readdir_of w source of
        Inl e \<Rightarrow> (Some (SysError e), w)
      | Inr volList \<Rightarrow>
          if length volList > 0 then
            (case readdir_of w destination of
               Inl e \<Rightarrow> (Some (SysError e), w)
             | Inr srcList \<Rightarrow>
                 if length srcList = 0 then
                   (case archive_CopyWithTar source destination w of
                      (Some err, w1) \<Rightarrow> (Some err, w1)
                    | (None, w1) \<Rightarrow> copyOwnership source destination w1)
                 else copyOwnership source destination w)
          else copyOwnership source destination w)"

subsection \<open>Initializing a volume\<close>

text \<open>\<^verbatim>\<open>createVolumeHostPath\<close> returns the path together with the error.\<close>

definition createVolumeHostPath :: "Container \<Rightarrow> world \<Rightarrow> string \<times> error option \<times> world" where
  "createVolumeHostPath container w =
     (case volumes_Create w of
        (Inl e, w1) \<Rightarrow> ([], Some (SysError e), w1)
      | (Inr ident, w1) \<Rightarrow>
          (case driver_get_of w1 ident of
             (hostPath, Some e) \<Rightarrow> (hostPath, Some (DriverGetFailed ident e), w1)
           | (hostPath, None) \<Rightarrow> (hostPath, None, w1)))"

text \<open>
  \<^verbatim>\<open>(*Volume).initialize\<close> changes the volume, the container and the world in place; the
  model returns all three next to the error, so that what an erroneous run leaves behind
  is part of the result.
\<close>

definition initialize_tail ::
  "Volume \<Rightarrow> string \<Rightarrow> string \<Rightarrow> Container \<Rightarrow> world \<Rightarrow> error option \<times> Volume \<times> Container \<times> world"
where
  "initialize_tail v hostPath fullVolPath container w =
     (case isDir v w of
        (volIsDir, Some err) \<Rightarrow> (Some err, v, container, w)
      | (volIsDir, None) \<Rightarrow>
          (case createIfNotExists fullVolPath volIsDir w of
             (Some err, w1) \<Rightarrow> (Some err, v, container, w1)
           | (None, w1) \<Rightarrow>
               if isReadWrite v \<and> \<not> isBindMount v then
                 (case copyExistingContents fullVolPath hostPath w1 of
                    (r, w2) \<Rightarrow> (r, v, container, w2))
               else (None, v, container, w1)))"

text \<open>The step of \<^verbatim>\<open>initialize\<close> that gives a managed volume without a host path its
  directory: \<^verbatim>\<open>v.HostPath, err = createVolumeHostPath(container)\<close>.\<close>

definition allocateHostPath :: "Volume \<Rightarrow> Container \<Rightarrow> world \<Rightarrow> error option \<times> Volume \<times> world" where
  "allocateHostPath v container w =
     (if \<not> isBindMount v \<and> HostPath v = []
      then (case createVolumeHostPath container w of
              (hp, err, w1) \<Rightarrow> (err, v\<lparr>HostPath := hp\<rparr>, w1))
      else (None, v, w))"

definition initialize ::
  "Volume \<Rightarrow> Container \<Rightarrow> world \<Rightarrow> error option \<times> Volume \<times> Container \<times> world"
where
  "initialize v0 container w =
     (let v = v0\<lparr>VolPath := Clean (VolPath v0)\<rparr> in
      if map_of (Volumes container) (VolPath v) \<noteq> None then (None, v, container, w)
      else
        (case allocateHostPath v container w of
           (Some err, v1, w1) \<Rightarrow> (Some err, v1, container, w1)
         | (None, v1, w1) \<Rightarrow>
             (case evalsymlinks_of w1 (HostPath v1) of
                Inl e \<Rightarrow> (Some (SysError e), v1, container, w1)
              | Inr hostPath \<Rightarrow>
                  (case followsymlink_of w1 (Join [basefs container, VolPath v1])
                          (basefs container) of
                     Inl e \<Rightarrow> (Some (SysError e), v1, container, w1)
                   | Inr fullVolPath \<Rightarrow>
                       initialize_tail v1 hostPath fullVolPath
                         (container\<lparr>Volumes := AList.update (VolPath v1) hostPath
                                                  (Volumes container),
                                     VolumesRW := AList.update (VolPath v1) (isReadWrite v1)
                                                    (VolumesRW container)\<rparr>)
                         w1))))"

text \<open>The loop \<^verbatim>\<open>for _, v := range volumes { v.initialize(container) }\<close>, which stops at
  the first error.\<close>

fun initializeAll :: "Volume list \<Rightarrow> Container \<Rightarrow> world \<Rightarrow> error option \<times> Container \<times> world" where
  "initializeAll [] container w = (None, container, w)"
| "initializeAll (v # vs) container w =
     (case initialize v container w of
        (Some err, _, container1, w1) \<Rightarrow> (Some err, container1, w1)
      | (None, _, container1, w1) \<Rightarrow> initializeAll vs container1 w1)"

subsection \<open>Volumes inherited from other containers\<close>

definition parseVolumesFromSpec ::
  "collab \<Rightarrow> Container \<Rightarrow> string \<Rightarrow> error + (string \<times> Volume) list"
where
  "parseVolumesFromSpec env container spec =
     (let specParts = SplitN2 CHR '':'' spec in
      if length specParts = 0 then Inl (MalformedVolumesFrom spec)
      else
        (case daemon_Get env (specParts ! 0) of
           None \<Rightarrow> Inl (ContainerNotFound (specParts ! 0))
         | Some c \<Rightarrow>
             (case GetVolumes env c of
                Inl err \<Rightarrow> Inl err
              | Inr volumes \<Rightarrow>
                  if length specParts = 2 then
                    (let mode = specParts ! 1 in
                     if validVolumeMode mode then Inl (InvalidVolumesFromMode mode)
                     else Inr (map (\<lambda>(k, v). (k, v\<lparr>isReadWrite := (mode \<noteq> ''ro'')\<rparr>)) volumes))
                  else Inr volumes)))"

fun applyVolumesFrom_loop ::
  "collab \<Rightarrow> string list \<Rightarrow> Container \<Rightarrow> world \<Rightarrow> error option \<times> Container \<times> world"
where
  "applyVolumesFrom_loop env [] container w = (None, container, w)"
| "applyVolumesFrom_loop env (spec # specs) container w =
     (case parseVolumesFromSpec env container spec of
        Inl err \<Rightarrow> (Some err, container, w)
      | Inr volumes \<Rightarrow>
          (case initializeAll (map snd volumes) container w of
             (Some err, container1, w1) \<Rightarrow> (Some err, container1, w1)
           | (None, container1, w1) \<Rightarrow> applyVolumesFrom_loop env specs container1 w1))"

definition applyVolumesFrom ::
  "collab \<Rightarrow> Container \<Rightarrow> world \<Rightarrow> error option \<times> Container \<times> world"
where
  "applyVolumesFrom env container w =
     applyVolumesFrom_loop env (hostConfig_VolumesFrom container) container w"

subsection \<open>Building the volume set\<close>

text \<open>The first loop of \<^verbatim>\<open>createVolumes\<close>: a declared path that is no key of \<open>volumes\<close>
  yet gets a managed volume.\<close>

definition addConfigVolume :: "(string \<times> Volume) list \<Rightarrow> string \<Rightarrow> (string \<times> Volume) list" where
  "addConfigVolume volumes volPath =
     (if map_of volumes volPath = None
      then AList.update volPath
             (zeroVolume\<lparr>VolPath := volPath, isReadWrite := True, isBindMount := False\<rparr>) volumes
      else volumes)"

definition buildVolumes :: "(string \<times> Volume) list \<Rightarrow> string list \<Rightarrow> (string \<times> Volume) list" where
  "buildVolumes volumes declared = foldl addConfigVolume volumes declared"

definition createVolumes :: "collab \<Rightarrow> Container \<Rightarrow> world \<Rightarrow> error option \<times> Container \<times> world" where
  "createVolumes env container w =
     (case GetVolumes env container of
        Inl err \<Rightarrow> (Some err, container, w)
      | Inr volumes \<Rightarrow>
          initializeAll (map snd (buildVolumes volumes (Config_Volumes container)))
            container w)"

text \<open>A nil map and an empty map are both the empty list.\<close>

definition prepareVolumesForContainer ::
  "collab \<Rightarrow> Container \<Rightarrow> world \<Rightarrow> error option \<times> Container \<times> world"
where
  "prepareVolumesForContainer env container w =
     (if length (Volumes container) = 0 then
        (case applyVolumesFrom env (container\<lparr>Volumes := [], VolumesRW := []\<rparr>) w of
           (Some err, container1, w1) \<Rightarrow> (Some err, container1, w1)
         | (None, container1, w1) \<Rightarrow> createVolumes env container1 w1)
      else createVolumes env container w)"

subsection \<open>Assembling the mount list\<close>



definition volumeRW :: "Container \<Rightarrow> string \<Rightarrow> bool" where
  "volumeRW container path = (case map_of (VolumesRW container) path of None \<Rightarrow> False | Some b \<Rightarrow> b)"






subsection \<open>Reading a trace and a listing\<close>

text \<open>The copies that a trace holds, as pairs of source and destination, and whether a
  directory can be listed and has, or has not, an entry.\<close>

fun copies :: "event list \<Rightarrow> (string \<times> string) list" where
  "copies [] = []"
| "copies (EvCopyWithTar src dst # evs) = (src, dst) # copies evs"
| "copies (ev # evs) = copies evs"

definition nonEmptyDir :: "world \<Rightarrow> string \<Rightarrow> bool" where
  "nonEmptyDir w p = (case readdir_of w p of Inl e \<Rightarrow> False | Inr names \<Rightarrow> names \<noteq> [])"

definition emptyDir :: "world \<Rightarrow> string \<Rightarrow> bool" where
  "emptyDir w p = (readdir_of w p = Inr [])"

subsection \<open>Example data\<close>

text \<open>A container with three volumes, a registry that knows it under the name \<open>src\<close>,
  and a \<open>GetVolumes\<close> that reads the recorded volume set.\<close>

definition demoContainer :: Container where
  "demoContainer =
     \<lparr>ResolvConfPath = ''/c/resolv.conf'', HostnamePath = ''/c/hostname'', HostsPath = [],
      Volumes = [(''/ab'', ''/vol/3''), (''/a'', ''/vol/1''), (''/a/b'', ''/vol/2'')],
      VolumesRW = [(''/ab'', True), (''/a'', False), (''/a/b'', True)],
      basefs = ''/rootfs'', Config_Volumes = [], hostConfig_VolumesFrom = [],
      command_Mounts = []\<rparr>"

definition recordedVolumes :: "Container \<Rightarrow> error + (string \<times> Volume) list" where
  "recordedVolumes c =
     Inr (map (\<lambda>(p, h). (p, \<lparr>HostPath = h, VolPath = p, isReadWrite = volumeRW c p,
                              isBindMount = False\<rparr>)) (Volumes c))"

definition demoEnv :: collab where
  "demoEnv =
     \<lparr>daemon_Get = (\<lambda>name. if name = ''src'' then Some demoContainer else None),
      GetVolumes = recordedVolumes\<rparr>"

text \<open>A fresh container rooted at \<open>/rootfs\<close>, and a world in which \<open>/vol/1\<close> is a
  directory of root holding one file, \<open>/rootfs/data\<close> is an empty directory of user 1000,
  \<open>/locked\<close> cannot be inspected and nothing else exists.\<close>

definition freshContainer :: Container where
  "freshContainer =
     \<lparr>ResolvConfPath = ''/c/resolv.conf'', HostnamePath = [], HostsPath = [],
      Volumes = [], VolumesRW = [],
      basefs = ''/rootfs'', Config_Volumes = [], hostConfig_VolumesFrom = [],
      command_Mounts = []\<rparr>"

definition demoStat :: "string \<Rightarrow> errno + fstat" where
  "demoStat p =
     (if p = ''/vol/1'' then Inr \<lparr>st_isdir = True, st_uid = 0, st_gid = 0, st_mode = 493\<rparr>
      else if p = ''/rootfs/data''
        then Inr \<lparr>st_isdir = True, st_uid = 1000, st_gid = 1000, st_mode = 448\<rparr>
      else if p = ''/locked'' then Inl EACCES
      else Inl ENOENT)"

definition demoReaddir :: "string \<Rightarrow> errno + string list" where
  "demoReaddir p =
     (if p = ''/vol/1'' then Inr [''f'']
      else if p = ''/rootfs/data'' then Inr []
      else Inl ENOENT)"

definition demoWorld :: world where
  "demoWorld =
     \<lparr>stat_of = demoStat, readdir_of = demoReaddir,
      evalsymlinks_of = Inr, followsymlink_of = (\<lambda>p root. Inr p),
      create_of = (\<lambda>n. Inr ''v''), created = 0,
      driver_get_of = (\<lambda>ident. (''/vol/'' @ ident, None)),
      fault = (\<lambda>ev. None), trace = []\<rparr>"

text \<open>The same world with the two directory listings exchanged: the mount point holds
  one entry and the backing directory is empty.\<close>

definition imageWorld :: world where
  "imageWorld =
     demoWorld\<lparr>readdir_of := (\<lambda>p. if p = ''/rootfs/data'' then Inr [''etc'']
                                   else if p = ''/vol/1'' then Inr []
                                   else Inl ENOENT)\<rparr>"

definition managedVolume :: Volume where
  "managedVolume =
     \<lparr>HostPath = ''/vol/1'', VolPath = ''/data'', isReadWrite = True, isBindMount = False\<rparr>"

text \<open>A bind mount of the directory that cannot be inspected.\<close>

definition lockedBind :: Volume where
  "lockedBind =
     \<lparr>HostPath = ''/locked'', VolPath = ''/data'', isReadWrite = True, isBindMount = True\<rparr>"

text \<open>The container of the example with two declared volumes, one of them at a path
  that is taken.\<close>

definition declaringContainer :: Container where
  "declaringContainer = demoContainer\<lparr>Config_Volumes := [''/a'', ''/data'']\<rparr>"

section \<open>Properties\<close>

subsection \<open>Splitting\<close>

lemma Split_no_sep: "sep \<notin> set s \<Longrightarrow> Split sep s = [s]"
  by (induction s) auto

lemma Split_field: "sep \<notin> set a \<Longrightarrow> Split sep (a @ sep # b) = a # Split sep b"
  by (induction a) (auto split: list.splits)

lemma SplitN2_field: "sep \<notin> set a \<Longrightarrow> SplitN2 sep (a @ sep # b) = [a, b]"
  unfolding SplitN2_def by (induction a) auto

lemma validVolumeMode_iff: "validVolumeMode m \<longleftrightarrow> m = ''rw'' \<or> m = ''ro''"
  by (auto simp: validVolumeMode_def validModes_def)

subsection \<open>Volumes-from specifications\<close>

text \<open>What \<^const>\<open>parseVolumesFromSpec\<close> does with a mode suffix, for every specification
  \<open>cid:mode\<close> whose container is found and whose volumes can be read: the two valid modes
  are refused, and every other mode is accepted and makes each inherited volume
  read-write.\<close>

lemma parseVolumesFromSpec_mode:
  assumes "CHR '':'' \<notin> set cid" "daemon_Get env cid = Some c" "GetVolumes env c = Inr vols"
  shows "parseVolumesFromSpec env container (cid @ '':'' @ mode) =
    (if mode = ''ro'' \<or> mode = ''rw'' then Inl (InvalidVolumesFromMode mode)
     else Inr (map (\<lambda>(k, v). (k, v\<lparr>isReadWrite := True\<rparr>)) vols))"
  using assms by (auto simp: parseVolumesFromSpec_def SplitN2_field validVolumeMode_iff)

text \<open>
  Claim C1. A volumes-from specification \<open>cid:mode\<close> of a container that resolves should
  fail unless the mode is \<open>ro\<close> or \<open>rw\<close>, and with one of these it should succeed and set
  \<open>isReadWrite\<close> of every inherited volume to \<open>mode \<noteq> ro\<close>. The code tests
  \<^verbatim>\<open>validVolumeMode(mode)\<close> without the negation: \<open>src:ro\<close> and \<open>src:rw\<close> are refused as
  invalid modes, and \<open>src:bogus\<close> is accepted, all three volumes of \<open>src\<close> becoming
  read-write.
\<close>

theorem parseVolumesFromSpec_mode_inverted:
  "parseVolumesFromSpec demoEnv freshContainer ''src:ro'' = Inl (InvalidVolumesFromMode ''ro'')
   \<and> parseVolumesFromSpec demoEnv freshContainer ''src:rw'' = Inl (InvalidVolumesFromMode ''rw'')
   \<and> parseVolumesFromSpec demoEnv freshContainer ''src:bogus'' =
       Inr [(''/ab'', \<lparr>HostPath = ''/vol/3'', VolPath = ''/ab'', isReadWrite = True,
                       isBindMount = False\<rparr>),
            (''/a'', \<lparr>HostPath = ''/vol/1'', VolPath = ''/a'', isReadWrite = True,
                      isBindMount = False\<rparr>),
            (''/a/b'', \<lparr>HostPath = ''/vol/2'', VolPath = ''/a/b'', isReadWrite = True,
                        isBindMount = False\<rparr>)]"
  by (simp add: parseVolumesFromSpec_def SplitN2_def demoEnv_def recordedVolumes_def
      demoContainer_def validVolumeMode_def validModes_def volumeRW_def)

subsection \<open>Bind specifications\<close>




text \<open>A specification of one field: the volume is built as the first case of the switch
  says, and the test of the host path then refuses it, the empty path not being
  absolute.\<close>

lemma parseBindVolumeSpec_one_field:
  "CHR '':'' \<notin> set spec \<Longrightarrow>
   parseBindVolumeSpec spec =
     (\<lparr>HostPath = [], VolPath = spec, isReadWrite = True, isBindMount = False\<rparr>,
      Some (NotAbsolute []))"
  by (simp add: parseBindVolumeSpec_def zeroVolume_def Split_no_sep)

text \<open>
  Claim C3. A bind specification of one field (a container path without a colon) should
  succeed with that container path, \<open>readWrite = true\<close> and an empty host path, the
  absolute-path test refusing only a host path that is non-empty and not absolute. The
  code applies the test to the empty host path as well: \<open>/data\<close> gives the volume
  described and, with it, the error that the path \<open>\<close> is not absolute.
\<close>

theorem parseBindVolumeSpec_one_field_rejected:
  "parseBindVolumeSpec ''/data'' =
     (\<lparr>HostPath = [], VolPath = ''/data'', isReadWrite = True, isBindMount = False\<rparr>,
      Some (NotAbsolute []))"
  by (simp add: parseBindVolumeSpec_def zeroVolume_def)

subsection \<open>The mount list\<close>





subsection \<open>Creating the mount point\<close>

lemma os_MkdirAll_trace: "trace (snd (os_MkdirAll p m w)) = trace w @ [EvMkdirAll p m]"
  by (simp add: os_MkdirAll_def issue_def Let_def split: option.splits sum.splits)

lemma os_OpenFile_create_trace:
  "trace (snd (os_OpenFile_create p m w)) = trace w @ [EvOpenCreate p m]"
  by (simp add: os_OpenFile_create_def issue_def Let_def split: option.splits sum.splits)

lemma os_MkdirAll_ok:
  "fst (os_MkdirAll p m w) = None \<Longrightarrow>
     \<exists>st. stat_of (snd (os_MkdirAll p m w)) p = Inr st \<and> st_isdir st"
  by (auto simp: os_MkdirAll_def issue_def Let_def split: option.splits sum.splits if_splits)

lemma os_MkdirAll_new:
  "stat_of w p = Inl e \<Longrightarrow> fst (os_MkdirAll p m w) = None \<Longrightarrow>
     stat_of (snd (os_MkdirAll p m w)) p =
       Inr \<lparr>st_isdir = True, st_uid = 0, st_gid = 0, st_mode = m\<rparr>"
  by (auto simp: os_MkdirAll_def issue_def Let_def split: option.splits sum.splits if_splits)

lemma os_OpenFile_create_ok:
  "fst (os_OpenFile_create p m w) = None \<Longrightarrow>
     \<exists>st. stat_of (snd (os_OpenFile_create p m w)) p = Inr st"
  by (auto simp: os_OpenFile_create_def issue_def Let_def split: option.splits sum.splits)

lemma os_OpenFile_create_other:
  "q \<noteq> p \<Longrightarrow> stat_of (snd (os_OpenFile_create p m w)) q = stat_of w q"
  by (auto simp: os_OpenFile_create_def issue_def Let_def split: option.splits sum.splits)

text \<open>
  Claim C10. \<^const>\<open>createIfNotExists\<close> creates the node only when \<open>stat\<close> of the
  destination fails with the not-exist error: when \<open>stat\<close> succeeds or fails with any
  other error it returns no error and issues no call at all. When the destination does
  not exist, it issues \<open>MkdirAll\<close> of the destination for a directory, after which the
  directory exists, and \<open>MkdirAll\<close> of the parent followed by the creation of the file
  otherwise, after which the file and its parent directory exist.
\<close>

theorem createIfNotExists_only_when_missing:
  "(stat_of w d \<noteq> Inl ENOENT \<longrightarrow> createIfNotExists d isdir w = (None, w))
   \<and> (stat_of w d = Inl ENOENT \<and> isdir \<longrightarrow>
        trace (snd (createIfNotExists d isdir w)) = trace w @ [EvMkdirAll d 493]
        \<and> (fst (createIfNotExists d isdir w) = None \<longrightarrow>
             stat_of (snd (createIfNotExists d isdir w)) d =
               Inr \<lparr>st_isdir = True, st_uid = 0, st_gid = 0, st_mode = 493\<rparr>))
   \<and> (stat_of w d = Inl ENOENT \<and> \<not> isdir \<longrightarrow>
        (\<exists>evs. trace (snd (createIfNotExists d isdir w)) = trace w @ EvMkdirAll (Dir d) 493 # evs)
        \<and> (fst (createIfNotExists d isdir w) = None \<longrightarrow>
             trace (snd (createIfNotExists d isdir w)) =
               trace w @ [EvMkdirAll (Dir d) 493, EvOpenCreate d 493]
             \<and> (\<exists>st. stat_of (snd (createIfNotExists d isdir w)) d = Inr st)
             \<and> (Dir d \<noteq> d \<longrightarrow>
                  (\<exists>st. stat_of (snd (createIfNotExists d isdir w)) (Dir d) = Inr st \<and> st_isdir st))))"
proof (intro conjI impI)
  assume "stat_of w d \<noteq> Inl ENOENT"
  then show "createIfNotExists d isdir w = (None, w)"
    by (auto simp: createIfNotExists_def os_IsNotExist_def split: sum.splits)
next
  assume a: "stat_of w d = Inl ENOENT \<and> isdir"
  then have e: "createIfNotExists d isdir w = os_MkdirAll d 493 w"
    by (simp add: createIfNotExists_def os_IsNotExist_def)
  from a have st: "stat_of w d = Inl ENOENT" by simp
  show "trace (snd (createIfNotExists d isdir w)) = trace w @ [EvMkdirAll d 493]"
    by (simp add: e os_MkdirAll_trace)
  assume "fst (createIfNotExists d isdir w) = None"
  then show "stat_of (snd (createIfNotExists d isdir w)) d =
               Inr \<lparr>st_isdir = True, st_uid = 0, st_gid = 0, st_mode = 493\<rparr>"
    using os_MkdirAll_new[OF st, of 493] by (simp only: e)
next
  assume a: "stat_of w d = Inl ENOENT \<and> \<not> isdir"
  obtain r1 w1 where m: "os_MkdirAll (Dir d) 493 w = (r1, w1)" by fastforce
  obtain r2 w2 where f: "os_OpenFile_create d 493 w1 = (r2, w2)" by fastforce
  have t1: "trace w1 = trace w @ [EvMkdirAll (Dir d) 493]"
    using os_MkdirAll_trace[of "Dir d" 493 w] m by simp
  have t2: "trace w2 = trace w1 @ [EvOpenCreate d 493]"
    using os_OpenFile_create_trace[of d 493 w1] f by simp
  have e: "createIfNotExists d isdir w = (case r1 of Some err \<Rightarrow> (Some err, w1) | None \<Rightarrow> (r2, w2))"
    using a m f by (auto simp: createIfNotExists_def os_IsNotExist_def split: option.splits)
  show "\<exists>evs. trace (snd (createIfNotExists d isdir w)) = trace w @ EvMkdirAll (Dir d) 493 # evs"
    by (cases r1) (simp_all add: e t1 t2)
  assume ok: "fst (createIfNotExists d isdir w) = None"
  then have r: "r1 = None" "r2 = None" and e': "createIfNotExists d isdir w = (None, w2)"
    by (cases r1; simp add: e)+
  show "trace (snd (createIfNotExists d isdir w)) =
               trace w @ [EvMkdirAll (Dir d) 493, EvOpenCreate d 493]"
    by (simp add: e' t1 t2)
  show "\<exists>st. stat_of (snd (createIfNotExists d isdir w)) d = Inr st"
    using os_OpenFile_create_ok[of d 493 w1] f r by (simp add: e')
  assume "Dir d \<noteq> d"
  then show "\<exists>st. stat_of (snd (createIfNotExists d isdir w)) (Dir d) = Inr st \<and> st_isdir st"
    using os_OpenFile_create_other[of "Dir d" d 493 w1] os_MkdirAll_ok[of "Dir d" 493 w] f m r
    by (simp add: e')
qed

lemma Dir_new: "Dir ''/rootfs/new'' = ''/rootfs''"
  by (simp add: Dir_def Clean_def clean_step_def)

lemma demo_new_ok: "fst (createIfNotExists ''/rootfs/new'' False demoWorld) = None"
  by (simp add: createIfNotExists_def Dir_new os_MkdirAll_def os_OpenFile_create_def issue_def
      os_IsNotExist_def demoWorld_def demoStat_def Let_def)

theorem createIfNotExists_only_when_missing_witness:
  "stat_of demoWorld ''/locked'' \<noteq> Inl ENOENT
   \<and> createIfNotExists ''/locked'' True demoWorld = (None, demoWorld)
   \<and> stat_of demoWorld ''/vol/2'' = Inl ENOENT
   \<and> trace (snd (createIfNotExists ''/vol/2'' True demoWorld)) = [EvMkdirAll ''/vol/2'' 493]
   \<and> stat_of demoWorld ''/rootfs/new'' = Inl ENOENT
   \<and> fst (createIfNotExists ''/rootfs/new'' False demoWorld) = None
   \<and> trace (snd (createIfNotExists ''/rootfs/new'' False demoWorld)) =
       [EvMkdirAll ''/rootfs'' 493, EvOpenCreate ''/rootfs/new'' 493]"
proof -
  have s: "stat_of demoWorld ''/locked'' \<noteq> Inl ENOENT"
    "stat_of demoWorld ''/vol/2'' = Inl ENOENT"
    "stat_of demoWorld ''/rootfs/new'' = Inl ENOENT"
    "trace demoWorld = []"
    by (simp_all add: demoWorld_def demoStat_def)
  have 1: "createIfNotExists ''/locked'' True demoWorld = (None, demoWorld)"
    using createIfNotExists_only_when_missing [of demoWorld "''/locked''" True] s(1) by blast
  have 2: "trace (snd (createIfNotExists ''/vol/2'' True demoWorld)) = [EvMkdirAll ''/vol/2'' 493]"
    using createIfNotExists_only_when_missing [of demoWorld "''/vol/2''" True] s(2,4) by simp
  have 3: "trace (snd (createIfNotExists ''/rootfs/new'' False demoWorld)) =
       [EvMkdirAll ''/rootfs'' 493, EvOpenCreate ''/rootfs/new'' 493]"
    using createIfNotExists_only_when_missing [of demoWorld "''/rootfs/new''" False] s(3,4)
      demo_new_ok by (simp add: Dir_new)
  from s 1 2 3 demo_new_ok show ?thesis by blast
qed

subsection \<open>The steps of initialize\<close>

lemma allocateHostPath_fields:
  "allocateHostPath v c w = (r, v1, w1) \<Longrightarrow>
     VolPath v1 = VolPath v \<and> isReadWrite v1 = isReadWrite v \<and> isBindMount v1 = isBindMount v"
  by (auto simp: allocateHostPath_def split: if_splits prod.splits)

lemma initialize_reaches_tail:
  assumes "map_of (Volumes c) (Clean (VolPath v)) = None"
    and "allocateHostPath (v\<lparr>VolPath := Clean (VolPath v)\<rparr>) c w = (None, v1, w1)"
    and "evalsymlinks_of w1 (HostPath v1) = Inr hostPath"
    and "followsymlink_of w1 (Join [basefs c, Clean (VolPath v)]) (basefs c) = Inr full"
  shows "initialize v c w =
     initialize_tail v1 hostPath full
       (c\<lparr>Volumes := AList.update (Clean (VolPath v)) hostPath (Volumes c),
          VolumesRW := AList.update (Clean (VolPath v)) (isReadWrite v) (VolumesRW c)\<rparr>) w1"
  using assms allocateHostPath_fields[OF assms(2)]
  by (simp add: initialize_def Let_def)

lemma initialize_tail_keeps:
  "initialize_tail v h f c w = (r, v', c', w') \<Longrightarrow> c' = c \<and> v' = v"
  by (auto simp: initialize_tail_def split: prod.splits option.splits if_splits)

lemma initialize_tail_stat_fails:
  "stat_of w (HostPath v) = Inl e \<Longrightarrow>
     initialize_tail v h f c w = (Some (SysError e), v, c, w)"
  by (simp add: initialize_tail_def isDir_def)

lemma initialize_tail_create_fails:
  "stat_of w (HostPath v) = Inr st \<Longrightarrow> createIfNotExists f (st_isdir st) w = (Some err, w2) \<Longrightarrow>
     initialize_tail v h f c w = (Some err, v, c, w2)"
  by (simp add: initialize_tail_def isDir_def)

lemma initialize_tail_seeds:
  "stat_of w (HostPath v) = Inr st \<Longrightarrow> createIfNotExists f (st_isdir st) w = (None, w2) \<Longrightarrow>
   isReadWrite v \<Longrightarrow> \<not> isBindMount v \<Longrightarrow>
     initialize_tail v h f c w =
       (fst (copyExistingContents f h w2), v, c, snd (copyExistingContents f h w2))"
  by (simp add: initialize_tail_def isDir_def split: prod.splits)

text \<open>
  Claim C9. \<^const>\<open>initialize\<close> writes the entries \<open>containerPath \<mapsto> hostPath\<close> and
  \<open>containerPath \<mapsto> readWrite\<close> into the volume set before it inspects the source,
  creates the mount point and seeds the contents. Once the cleaned path is new, the host
  path is there and both paths are resolved, the container that \<^const>\<open>initialize\<close>
  leaves behind holds the two entries whatever happens afterwards; and when \<open>stat\<close> of the
  source fails, when the mount point cannot be created, or when seeding fails,
  \<^const>\<open>initialize\<close> returns that error, so that the error comes with the entries
  recorded.
\<close>

theorem initialize_error_keeps_entries:
  assumes np: "map_of (Volumes c) (Clean (VolPath v)) = None"
    and hp: "allocateHostPath (v\<lparr>VolPath := Clean (VolPath v)\<rparr>) c w = (None, v1, w1)"
    and ev: "evalsymlinks_of w1 (HostPath v1) = Inr hostPath"
    and fs: "followsymlink_of w1 (Join [basefs c, Clean (VolPath v)]) (basefs c) = Inr full"
    and res: "initialize v c w = (r, v', c', w')"
  shows "map_of (Volumes c') (Clean (VolPath v)) = Some hostPath
     \<and> map_of (VolumesRW c') (Clean (VolPath v)) = Some (isReadWrite v)
     \<and> (\<forall>e. stat_of w1 (HostPath v1) = Inl e \<longrightarrow> r = Some (SysError e))
     \<and> (\<forall>st err w2. stat_of w1 (HostPath v1) = Inr st
            \<and> createIfNotExists full (st_isdir st) w1 = (Some err, w2) \<longrightarrow> r = Some err)
     \<and> (\<forall>st w2 err w3. stat_of w1 (HostPath v1) = Inr st
            \<and> createIfNotExists full (st_isdir st) w1 = (None, w2)
            \<and> isReadWrite v \<and> \<not> isBindMount v
            \<and> copyExistingContents full hostPath w2 = (Some err, w3) \<longrightarrow> r = Some err)"
proof -
  let ?c1 = "c\<lparr>Volumes := AList.update (Clean (VolPath v)) hostPath (Volumes c),
          VolumesRW := AList.update (Clean (VolPath v)) (isReadWrite v) (VolumesRW c)\<rparr>"
  have t: "initialize_tail v1 hostPath full ?c1 w1 = (r, v', c', w')"
    using initialize_reaches_tail[OF np hp ev fs] res by simp
  have f: "isReadWrite v1 = isReadWrite v" "isBindMount v1 = isBindMount v"
    using allocateHostPath_fields[OF hp] by simp_all
  have c': "c' = ?c1" using initialize_tail_keeps[OF t] by simp
  have 1: "map_of (Volumes c') (Clean (VolPath v)) = Some hostPath"
    "map_of (VolumesRW c') (Clean (VolPath v)) = Some (isReadWrite v)"
    by (simp_all add: c' update_conv')
  have 2: "\<forall>e. stat_of w1 (HostPath v1) = Inl e \<longrightarrow> r = Some (SysError e)"
    using t initialize_tail_stat_fails[of w1 v1 _ hostPath full ?c1] by auto
  have 3: "\<forall>st err w2. stat_of w1 (HostPath v1) = Inr st
            \<and> createIfNotExists full (st_isdir st) w1 = (Some err, w2) \<longrightarrow> r = Some err"
    using t initialize_tail_create_fails[of w1 v1 _ full _ _ hostPath ?c1] by auto
  have 4: "\<forall>st w2 err w3. stat_of w1 (HostPath v1) = Inr st
            \<and> createIfNotExists full (st_isdir st) w1 = (None, w2)
            \<and> isReadWrite v \<and> \<not> isBindMount v
            \<and> copyExistingContents full hostPath w2 = (Some err, w3) \<longrightarrow> r = Some err"
    using t f initialize_tail_seeds[of w1 v1 _ full _ hostPath ?c1] by auto
  from 1 2 3 4 show ?thesis by blast
qed

lemma Clean_data: "Clean ''/data'' = ''/data''"
  by (simp add: Clean_def clean_step_def)

lemma Join_data: "Join [''/rootfs'', ''/data''] = ''/rootfs/data''"
  by (simp add: Join_def Clean_def clean_step_def)

lemma lockedBind_run:
  "initialize lockedBind freshContainer demoWorld =
     (Some (SysError EACCES), lockedBind,
      freshContainer\<lparr>Volumes := [(''/data'', ''/locked'')], VolumesRW := [(''/data'', True)]\<rparr>,
      demoWorld)"
  by (simp add: initialize_def Let_def lockedBind_def Clean_data Join_data allocateHostPath_def
      freshContainer_def demoWorld_def demoStat_def initialize_tail_def isDir_def)

theorem initialize_error_keeps_entries_witness:
  "map_of (Volumes freshContainer) (Clean (VolPath lockedBind)) = None
   \<and> allocateHostPath (lockedBind\<lparr>VolPath := Clean (VolPath lockedBind)\<rparr>) freshContainer demoWorld
       = (None, lockedBind, demoWorld)
   \<and> evalsymlinks_of demoWorld (HostPath lockedBind) = Inr ''/locked''
   \<and> followsymlink_of demoWorld (Join [basefs freshContainer, Clean (VolPath lockedBind)])
        (basefs freshContainer) = Inr ''/rootfs/data''
   \<and> stat_of demoWorld (HostPath lockedBind) = Inl EACCES
   \<and> fst (initialize lockedBind freshContainer demoWorld) = Some (SysError EACCES)
   \<and> map_of (Volumes (fst (snd (snd (initialize lockedBind freshContainer demoWorld)))))
        (Clean (VolPath lockedBind)) = Some ''/locked''
   \<and> map_of (VolumesRW (fst (snd (snd (initialize lockedBind freshContainer demoWorld)))))
        (Clean (VolPath lockedBind)) = Some (isReadWrite lockedBind)"
proof -
  have np: "map_of (Volumes freshContainer) (Clean (VolPath lockedBind)) = None"
    by (simp add: freshContainer_def)
  have hp: "allocateHostPath (lockedBind\<lparr>VolPath := Clean (VolPath lockedBind)\<rparr>) freshContainer
      demoWorld = (None, lockedBind, demoWorld)"
    by (simp add: allocateHostPath_def lockedBind_def Clean_data)
  have ev: "evalsymlinks_of demoWorld (HostPath lockedBind) = Inr ''/locked''"
    by (simp add: demoWorld_def lockedBind_def)
  have fs: "followsymlink_of demoWorld (Join [basefs freshContainer, Clean (VolPath lockedBind)])
        (basefs freshContainer) = Inr ''/rootfs/data''"
    by (simp add: demoWorld_def lockedBind_def freshContainer_def Clean_data Join_data)
  have st: "stat_of demoWorld (HostPath lockedBind) = Inl EACCES"
    by (simp add: demoWorld_def demoStat_def lockedBind_def)
  note k = initialize_error_keeps_entries [OF np hp ev fs lockedBind_run]
  have r: "fst (initialize lockedBind freshContainer demoWorld) = Some (SysError EACCES)"
    by (simp add: lockedBind_run)
  have m: "map_of (Volumes (fst (snd (snd (initialize lockedBind freshContainer demoWorld)))))
        (Clean (VolPath lockedBind)) = Some ''/locked''"
    "map_of (VolumesRW (fst (snd (snd (initialize lockedBind freshContainer demoWorld)))))
        (Clean (VolPath lockedBind)) = Some (isReadWrite lockedBind)"
    using k by (simp_all add: lockedBind_run)
  from np hp ev fs st r m show ?thesis by blast
qed

subsection \<open>Seeding the contents\<close>

lemma copies_append: "copies (xs @ ys) = copies xs @ copies ys"
  by (induction xs rule: copies.induct) simp_all

lemma os_Chown_facts:
  "trace (snd (os_Chown p u g w)) = trace w @ [EvChown p u g]"
  "readdir_of (snd (os_Chown p u g w)) = readdir_of w"
  "fault (snd (os_Chown p u g w)) = fault w"
  by (simp_all add: os_Chown_def issue_def Let_def split: option.splits sum.splits)

lemma os_Chmod_facts:
  "trace (snd (os_Chmod p m w)) = trace w @ [EvChmod p m]"
  "readdir_of (snd (os_Chmod p m w)) = readdir_of w"
  "fault (snd (os_Chmod p m w)) = fault w"
  by (simp_all add: os_Chmod_def issue_def Let_def split: option.splits sum.splits)



lemma copyOwnership_unfold:
  "stat_of w s = Inr st \<Longrightarrow>
     copyOwnership s d w =
       (case fst (os_Chown d (st_uid st) (st_gid st) w) of
          Some err \<Rightarrow> (Some err, snd (os_Chown d (st_uid st) (st_gid st) w))
        | None \<Rightarrow> os_Chmod d (st_mode st) (snd (os_Chown d (st_uid st) (st_gid st) w)))"
  by (simp add: copyOwnership_def split: prod.splits option.splits)

lemma copyOwnership_copies:
  "copies (trace (snd (copyOwnership s d w))) = copies (trace w)"
proof (cases "stat_of w s")
  case (Inl e)
  then show ?thesis by (simp add: copyOwnership_def)
next
  case (Inr st)
  show ?thesis
    by (simp add: copyOwnership_unfold[OF Inr] os_Chown_facts os_Chmod_facts copies_append
        split: option.splits)
qed

lemma copyOwnership_readdir:
  "readdir_of (snd (copyOwnership s d w)) = readdir_of w"
proof (cases "stat_of w s")
  case (Inl e)
  then show ?thesis by (simp add: copyOwnership_def)
next
  case (Inr st)
  show ?thesis
    by (simp add: copyOwnership_unfold[OF Inr] os_Chown_facts os_Chmod_facts
        split: option.splits)
qed


lemma archive_CopyWithTar_facts:
  "trace (snd (archive_CopyWithTar s d w)) = trace w @ [EvCopyWithTar s d]"
  "stat_of (snd (archive_CopyWithTar s d w)) = stat_of w"
  "fault (snd (archive_CopyWithTar s d w)) = fault w"
  by (simp_all add: archive_CopyWithTar_def issue_def Let_def split: option.splits sum.splits)

lemma archive_CopyWithTar_ok:
  "fst (archive_CopyWithTar s d w) = None \<Longrightarrow> readdir_of w s = Inr names \<Longrightarrow>
   readdir_of w d = Inr [] \<Longrightarrow>
     readdir_of (snd (archive_CopyWithTar s d w)) = (readdir_of w)(d := Inr names)"
  by (auto simp: archive_CopyWithTar_def issue_def Let_def List.union_def
      split: option.splits sum.splits)


lemma copyExistingContents_cases:
  "copyExistingContents s d w =
     (case readdir_of w s of
        Inl e \<Rightarrow> (Some (SysError e), w)
      | Inr names \<Rightarrow>
          if names = [] then copyOwnership s d w
          else (case readdir_of w d of
                  Inl e \<Rightarrow> (Some (SysError e), w)
                | Inr ds \<Rightarrow>
                    if ds \<noteq> [] then copyOwnership s d w
                    else (case fst (archive_CopyWithTar s d w) of
                            Some err \<Rightarrow> (Some err, snd (archive_CopyWithTar s d w))
                          | None \<Rightarrow> copyOwnership s d (snd (archive_CopyWithTar s d w)))))"
  by (simp add: copyExistingContents_def split: sum.splits prod.splits option.splits)

lemma copyExistingContents_copies:
  "copies (trace (snd (copyExistingContents s d w))) =
     copies (trace w) @ (if nonEmptyDir w s \<and> emptyDir w d then [(s, d)] else [])"
  by (simp add: copyExistingContents_cases nonEmptyDir_def emptyDir_def copyOwnership_copies
      archive_CopyWithTar_facts copies_append split: sum.splits option.splits)

lemma copyExistingContents_contents:
  assumes "nonEmptyDir w s" "emptyDir w d" "fst (copyExistingContents s d w) = None"
  shows "readdir_of (snd (copyExistingContents s d w)) d = readdir_of w s"
proof -
  obtain names where n: "readdir_of w s = Inr names" "names \<noteq> []"
    using assms(1) by (auto simp: nonEmptyDir_def split: sum.splits)
  have e: "readdir_of w d = Inr []" using assms(2) by (simp add: emptyDir_def)
  have ok: "fst (archive_CopyWithTar s d w) = None"
    using assms(3) n e by (auto simp: copyExistingContents_cases split: option.splits)
  then have "copyExistingContents s d w = copyOwnership s d (snd (archive_CopyWithTar s d w))"
    using n e by (simp add: copyExistingContents_cases)
  then show ?thesis
    using archive_CopyWithTar_ok[OF ok n(1) e] by (simp add: copyOwnership_readdir n)
qed

lemma createIfNotExists_guard:
  "stat_of w d = Inr st \<Longrightarrow> createIfNotExists d isdir w = (None, w)"
  by (simp add: createIfNotExists_def)

lemma createIfNotExists_copies:
  "copies (trace (snd (createIfNotExists d isdir w))) = copies (trace w)"
proof -
  obtain r1 w1 where m: "os_MkdirAll (Dir d) 493 w = (r1, w1)" by fastforce
  obtain r2 w2 where f: "os_OpenFile_create d 493 w1 = (r2, w2)" by fastforce
  have t1: "copies (trace w1) = copies (trace w)"
    using os_MkdirAll_trace[of "Dir d" 493 w] m by (simp add: copies_append)
  have t2: "copies (trace w2) = copies (trace w1)"
    using os_OpenFile_create_trace[of d 493 w1] f by (simp add: copies_append)
  have t3: "copies (trace (snd (os_MkdirAll d 493 w))) = copies (trace w)"
    by (simp add: os_MkdirAll_trace copies_append)
  show ?thesis
    using m f t1 t2 t3 by (auto simp: createIfNotExists_def split: option.splits)
qed

lemma allocateHostPath_copies:
  "allocateHostPath v c w = (r, v1, w1) \<Longrightarrow> copies (trace w1) = copies (trace w)"
  by (auto simp: allocateHostPath_def createVolumeHostPath_def volumes_Create_def issue_def
      Let_def copies_append split: if_splits prod.splits option.splits sum.splits)


text \<open>
  Claim C4, as amended. \<^const>\<open>initialize\<close> calls
  \<open>copyExistingContents fullVolPath hostPath\<close>: the source of the copy is the mount point
  inside the container and its destination is the backing directory. For a read-write
  managed volume that reaches the seeding step, exactly one copy is issued, of the whole
  mount-point directory into the backing directory, when the mount point lists at least
  one entry and the backing directory lists none, and no copy is issued otherwise. After
  a successful copy the backing directory lists what the mount point listed, and seeding
  it again, the backing directory being non-empty now, copies nothing.
\<close>

theorem seeding_copies_mount_point_into_storage:
  assumes np: "map_of (Volumes c) (Clean (VolPath v)) = None"
    and hp: "allocateHostPath (v\<lparr>VolPath := Clean (VolPath v)\<rparr>) c w = (None, v1, w1)"
    and ev: "evalsymlinks_of w1 (HostPath v1) = Inr hostPath"
    and fs: "followsymlink_of w1 (Join [basefs c, Clean (VolPath v)]) (basefs c) = Inr full"
    and st: "stat_of w1 (HostPath v1) = Inr st"
    and mk: "createIfNotExists full (st_isdir st) w1 = (None, w2)"
    and rw: "isReadWrite v" "\<not> isBindMount v"
    and res: "initialize v c w = (r, v', c', w')"
  shows "copies (trace w') =
           copies (trace w) @
           (if nonEmptyDir w2 full \<and> emptyDir w2 hostPath then [(full, hostPath)] else [])
     \<and> (nonEmptyDir w2 full \<and> emptyDir w2 hostPath \<and> r = None \<longrightarrow>
          readdir_of w' hostPath = readdir_of w2 full
          \<and> nonEmptyDir w' hostPath
          \<and> copies (trace (snd (copyExistingContents full hostPath w'))) = copies (trace w'))"
proof -
  let ?c1 = "c\<lparr>Volumes := AList.update (Clean (VolPath v)) hostPath (Volumes c),
          VolumesRW := AList.update (Clean (VolPath v)) (isReadWrite v) (VolumesRW c)\<rparr>"
  have f: "isReadWrite v1" "\<not> isBindMount v1"
    using allocateHostPath_fields[OF hp] rw by simp_all
  have "initialize v c w = initialize_tail v1 hostPath full ?c1 w1"
    by (rule initialize_reaches_tail[OF np hp ev fs])
  also have "\<dots> = (fst (copyExistingContents full hostPath w2), v1, ?c1,
                    snd (copyExistingContents full hostPath w2))"
    by (rule initialize_tail_seeds[OF st mk f])
  finally have r: "r = fst (copyExistingContents full hostPath w2)"
    and w': "w' = snd (copyExistingContents full hostPath w2)"
    using res by simp_all
  have t2: "copies (trace w2) = copies (trace w)"
    using createIfNotExists_copies[of full "st_isdir st" w1] mk allocateHostPath_copies[OF hp]
    by simp
  have 1: "copies (trace w') =
           copies (trace w) @
           (if nonEmptyDir w2 full \<and> emptyDir w2 hostPath then [(full, hostPath)] else [])"
    by (simp only: w' copyExistingContents_copies t2)
  have 2: "readdir_of w' hostPath = readdir_of w2 full \<and> nonEmptyDir w' hostPath
          \<and> copies (trace (snd (copyExistingContents full hostPath w'))) = copies (trace w')"
    if a: "nonEmptyDir w2 full \<and> emptyDir w2 hostPath \<and> r = None"
  proof -
    have c: "readdir_of w' hostPath = readdir_of w2 full"
      using copyExistingContents_contents[of w2 full hostPath] a r w' by simp
    then have n: "nonEmptyDir w' hostPath"
      using a by (simp add: nonEmptyDir_def)
    then have "\<not> emptyDir w' hostPath"
      by (auto simp: nonEmptyDir_def emptyDir_def)
    then show ?thesis
      using c n by (simp add: copyExistingContents_copies)
  qed
  from 1 2 show ?thesis by blast
qed

lemma managedVolume_steps:
  "w = demoWorld \<or> w = imageWorld \<Longrightarrow>
   map_of (Volumes freshContainer) (Clean (VolPath managedVolume)) = None
   \<and> allocateHostPath (managedVolume\<lparr>VolPath := Clean (VolPath managedVolume)\<rparr>) freshContainer w
       = (None, managedVolume, w)
   \<and> evalsymlinks_of w (HostPath managedVolume) = Inr ''/vol/1''
   \<and> followsymlink_of w (Join [basefs freshContainer, Clean (VolPath managedVolume)])
        (basefs freshContainer) = Inr ''/rootfs/data''
   \<and> stat_of w (HostPath managedVolume) =
        Inr \<lparr>st_isdir = True, st_uid = 0, st_gid = 0, st_mode = 493\<rparr>
   \<and> createIfNotExists ''/rootfs/data'' True w = (None, w)
   \<and> isReadWrite managedVolume \<and> \<not> isBindMount managedVolume"
  by (auto simp: freshContainer_def managedVolume_def Clean_data Join_data allocateHostPath_def
      demoWorld_def imageWorld_def demoStat_def createIfNotExists_def)

theorem seeding_copies_mount_point_into_storage_witness:
  "map_of (Volumes freshContainer) (Clean (VolPath managedVolume)) = None
   \<and> allocateHostPath (managedVolume\<lparr>VolPath := Clean (VolPath managedVolume)\<rparr>) freshContainer
        imageWorld = (None, managedVolume, imageWorld)
   \<and> evalsymlinks_of imageWorld (HostPath managedVolume) = Inr ''/vol/1''
   \<and> followsymlink_of imageWorld (Join [basefs freshContainer, Clean (VolPath managedVolume)])
        (basefs freshContainer) = Inr ''/rootfs/data''
   \<and> stat_of imageWorld (HostPath managedVolume) =
        Inr \<lparr>st_isdir = True, st_uid = 0, st_gid = 0, st_mode = 493\<rparr>
   \<and> createIfNotExists ''/rootfs/data'' True imageWorld = (None, imageWorld)
   \<and> isReadWrite managedVolume \<and> \<not> isBindMount managedVolume
   \<and> nonEmptyDir imageWorld ''/rootfs/data'' \<and> emptyDir imageWorld ''/vol/1''
   \<and> copies (trace (snd (snd (snd (initialize managedVolume freshContainer imageWorld))))) =
        [(''/rootfs/data'', ''/vol/1'')]"
proof -
  note s = managedVolume_steps [of imageWorld, simplified]
  obtain r v' c' w' where
    res: "initialize managedVolume freshContainer imageWorld = (r, v', c', w')"
    using prod_cases4 by blast
  have d: "nonEmptyDir imageWorld ''/rootfs/data''" "emptyDir imageWorld ''/vol/1''"
    "trace imageWorld = []"
    by (simp_all add: nonEmptyDir_def emptyDir_def imageWorld_def demoWorld_def)
  have "copies (trace w') = [(''/rootfs/data'', ''/vol/1'')]"
    using seeding_copies_mount_point_into_storage [of freshContainer managedVolume imageWorld
        managedVolume imageWorld "''/vol/1''" "''/rootfs/data''"
        "\<lparr>st_isdir = True, st_uid = 0, st_gid = 0, st_mode = 493\<rparr>" imageWorld r v' c' w']
      s res d
    by simp
  then have "copies (trace (snd (snd (snd (initialize managedVolume freshContainer imageWorld)))))
      = [(''/rootfs/data'', ''/vol/1'')]"
    by (simp add: res)
  with s d(1,2) show ?thesis by blast
qed

lemmas run_defs = initialize_def initialize_tail_def allocateHostPath_def isDir_def
  createIfNotExists_def copyExistingContents_def copyOwnership_def archive_CopyWithTar_def
  os_Chown_def os_Chmod_def issue_def Let_def Clean_data Join_data
  freshContainer_def managedVolume_def demoWorld_def imageWorld_def demoStat_def demoReaddir_def

text \<open>The claim as it was stated has the copy go from the backing directory into the
  mount point, when the backing directory is non-empty and the mount point is empty. In
  such a world the initialization succeeds, issues no copy and leaves the mount point
  empty.\<close>

theorem seeding_from_storage_refuted:
  "nonEmptyDir demoWorld ''/vol/1'' \<and> emptyDir demoWorld ''/rootfs/data''
   \<and> fst (initialize managedVolume freshContainer demoWorld) = None
   \<and> copies (trace (snd (snd (snd (initialize managedVolume freshContainer demoWorld))))) = []
   \<and> readdir_of (snd (snd (snd (initialize managedVolume freshContainer demoWorld))))
        ''/rootfs/data'' = Inr []"
  by (simp add: run_defs nonEmptyDir_def emptyDir_def)

subsection \<open>Owner and mode\<close>




subsection \<open>Building the volume set\<close>





lemma initialize_tail_container:
  "fst (snd (snd (initialize_tail v h f c w))) = c"
  by (simp add: initialize_tail_def split: prod.splits option.splits)





lemma Clean_paths:
  "Clean ''/a'' = ''/a''" "Clean ''/ab'' = ''/ab''" "Clean ''/a/b'' = ''/a/b''"
  "Clean ''/data'' = ''/data''" "Join [''/rootfs'', ''/data''] = ''/rootfs/data''"
  by (simp_all add: Join_def Clean_def clean_step_def)

lemma declaring_run:
  "fst (createVolumes demoEnv declaringContainer demoWorld) = None
   \<and> Volumes (fst (snd (createVolumes demoEnv declaringContainer demoWorld))) =
       [(''/ab'', ''/vol/3''), (''/a'', ''/vol/1''), (''/a/b'', ''/vol/2''), (''/data'', ''/vol/v'')]
   \<and> VolumesRW (fst (snd (createVolumes demoEnv declaringContainer demoWorld))) =
       [(''/ab'', True), (''/a'', False), (''/a/b'', True), (''/data'', True)]"
  by (simp add: createVolumes_def buildVolumes_def addConfigVolume_def demoEnv_def
      recordedVolumes_def declaringContainer_def demoContainer_def volumeRW_def zeroVolume_def
      initialize_def initialize_tail_def allocateHostPath_def isDir_def createIfNotExists_def
      copyExistingContents_def copyOwnership_def os_Chown_def os_Chmod_def issue_def Let_def
      Clean_paths createVolumeHostPath_def volumes_Create_def demoWorld_def demoStat_def
      demoReaddir_def)


subsection \<open>Cleaning a cleaned path\<close>

text \<open>\<^const>\<open>Clean\<close> leaves a list of elements without \<open>.\<close>, without empty elements and
  with \<open>..\<close> at the front of a relative path only; on the path that it has produced it
  finds the same elements again.\<close>

lemma Split_not_Nil: "Split sep s \<noteq> []"
  by (induction s) (auto split: list.splits)

lemma Split_fields_no_sep: "el \<in> set (Split sep s) \<Longrightarrow> sep \<notin> set el"
proof (induction s arbitrary: el)
  case Nil
  then show ?case by simp
next
  case (Cons x xs)
  show ?case
  proof (cases "x = sep")
    case True
    then show ?thesis using Cons by auto
  next
    case False
    obtain y ys where s: "Split sep xs = y # ys"
      using Split_not_Nil[of sep xs] by (cases "Split sep xs") auto
    then have "el = x # y \<or> el \<in> set ys" using Cons.prems False by simp
    then show ?thesis using Cons.IH[of y] Cons.IH[of el] s False by auto
  qed
qed

lemma Split_joinPath:
  "out \<noteq> [] \<Longrightarrow> \<forall>el\<in>set out. CHR ''/'' \<notin> set el \<Longrightarrow> Split CHR ''/'' (joinPath out) = out"
proof (induction out rule: joinPath.induct)
  case 1
  then show ?case by simp
next
  case (2 x)
  then show ?case by (simp add: Split_no_sep)
next
  case (3 x y ys)
  then show ?case by (simp add: Split_field)
qed

lemma dw_some:
  "\<exists>a\<in>set xs. \<not> P a \<Longrightarrow> dropWhile P (xs @ ys) = dropWhile P xs @ ys"
  using dropWhile_append1 by fastforce

lemma dw_all:
  "\<forall>a\<in>set xs. P a \<Longrightarrow> dropWhile P (xs @ ys) = dropWhile P ys"
  by (simp add: dropWhile_append2)

lemma dw_nil: "\<forall>a\<in>set xs. P a \<Longrightarrow> set (dropWhile P xs) = {}"
  by (induction xs) auto

lemma clean_step_push:
  assumes "el \<noteq> ''..'' \<or> (\<not> rooted \<and> (\<forall>a\<in>set acc. a = ''..''))"
  shows "clean_step rooted acc el = acc @ [el]"
  using assms by (cases "acc = []") (auto simp: clean_step_def)

lemma dotdot_prefix_all:
  assumes "''..'' \<notin> set (dropWhile (\<lambda>e. e = ''..'') (acc @ ''..'' # xs))"
  shows "\<forall>a\<in>set acc. a = ''..''"
proof (rule ccontr)
  assume "\<not> (\<forall>a\<in>set acc. a = ''..'')"
  then have "dropWhile (\<lambda>e. e = ''..'') (acc @ ''..'' # xs) =
      dropWhile (\<lambda>e. e = ''..'') acc @ ''..'' # xs"
    by (intro dw_some) simp
  then show False using assms by simp
qed

lemma foldl_clean_step_normal:
  assumes "rooted \<longrightarrow> ''..'' \<notin> set xs"
    and "''..'' \<notin> set (dropWhile (\<lambda>e. e = ''..'') (acc @ xs))"
  shows "foldl (clean_step rooted) acc xs = acc @ xs"
  using assms
proof (induction xs arbitrary: acc)
  case Nil
  then show ?case by simp
next
  case (Cons x xs)
  have push: "clean_step rooted acc x = acc @ [x]"
  proof (cases "x = ''..''")
    case False
    then show ?thesis by (simp add: clean_step_push)
  next
    case True
    have nr: "\<not> rooted" using Cons.prems(1) True by auto
    have "\<forall>a\<in>set acc. a = ''..''"
      using Cons.prems(2) unfolding True by (rule dotdot_prefix_all)
    then show ?thesis using nr by (simp add: clean_step_push)
  qed
  have "foldl (clean_step rooted) (acc @ [x]) xs = (acc @ [x]) @ xs"
    using Cons.prems by (intro Cons.IH) auto
  then show ?case by (simp add: push)
qed

lemma clean_step_inv:
  assumes r: "rooted \<longrightarrow> ''..'' \<notin> set acc"
    and d: "''..'' \<notin> set (dropWhile (\<lambda>e. e = ''..'') acc)"
    and p: "\<forall>a\<in>set acc. P a" and pe: "P el"
  shows "(rooted \<longrightarrow> ''..'' \<notin> set (clean_step rooted acc el))
     \<and> ''..'' \<notin> set (dropWhile (\<lambda>e. e = ''..'') (clean_step rooted acc el))
     \<and> (\<forall>a\<in>set (clean_step rooted acc el). P a)"
proof (cases "el = ''..''")
  case False
  have e: "clean_step rooted acc el = acc @ [el]"
    using False by (simp add: clean_step_push)
  have "''..'' \<notin> set (dropWhile (\<lambda>e. e = ''..'') (acc @ [el]))"
  proof (cases "\<forall>a\<in>set acc. a = ''..''")
    case True
    then show ?thesis using False by (simp add: dw_all)
  next
    case F: False
    then have "dropWhile (\<lambda>e. e = ''..'') (acc @ [el]) = dropWhile (\<lambda>e. e = ''..'') acc @ [el]"
      by (intro dw_some) simp
    then show ?thesis using d False by simp
  qed
  then show ?thesis unfolding e using r p pe False by simp
next
  case True
  show ?thesis
  proof (cases "acc \<noteq> [] \<and> last acc \<noteq> ''..''")
    case pop: True
    then have e: "clean_step rooted acc el = butlast acc"
      using True by (simp add: clean_step_def)
    have a: "acc = butlast acc @ [last acc]" using pop by simp
    have "''..'' \<notin> set (dropWhile (\<lambda>e. e = ''..'') (butlast acc))"
    proof (cases "\<forall>a\<in>set (butlast acc). a = ''..''")
      case True
      then show ?thesis by (simp add: dw_nil)
    next
      case False
      then have "dropWhile (\<lambda>e. e = ''..'') (butlast acc @ [last acc]) =
          dropWhile (\<lambda>e. e = ''..'') (butlast acc) @ [last acc]"
        by (intro dw_some) simp
      then show ?thesis using d a by (metis Un_iff set_append)
    qed
    moreover have "set (butlast acc) \<subseteq> set acc" by (meson in_set_butlastD subsetI)
    ultimately show ?thesis unfolding e using r p by auto
  next
    case nopop: False
    show ?thesis
    proof (cases rooted)
      case True
      then have e: "clean_step rooted acc el = acc"
        using nopop \<open>el = ''..''\<close> by (auto simp: clean_step_def)
      show ?thesis unfolding e using r d p by simp
    next
      case False
      then have e: "clean_step rooted acc el = acc @ [''..'']"
        using nopop \<open>el = ''..''\<close> by (auto simp: clean_step_def)
      have all: "\<forall>a\<in>set acc. a = ''..''"
      proof (cases "acc = []")
        case True
        then show ?thesis by simp
      next
        case ne: False
        then have l: "last acc = ''..''" using nopop by simp
        have "acc = butlast acc @ [''..'']" using ne l by (metis append_butlast_last_id)
        then have "''..'' \<notin> set (dropWhile (\<lambda>e. e = ''..'') (butlast acc @ ''..'' # []))"
          using d by simp
        then have "\<forall>a\<in>set (butlast acc). a = ''..''" by (rule dotdot_prefix_all)
        then show ?thesis using l ne by (metis append_butlast_last_id rotate1.simps(2) set_ConsD set_rotate1)
      qed
      then have "set (dropWhile (\<lambda>e. e = ''..'') (acc @ [''..''])) = {}"
        by (intro dw_nil) simp
      then show ?thesis unfolding e using False p pe True by simp
    qed
  qed
qed

lemma foldl_clean_step_inv:
  assumes "rooted \<longrightarrow> ''..'' \<notin> set acc"
    and "''..'' \<notin> set (dropWhile (\<lambda>e. e = ''..'') acc)"
    and "\<forall>a\<in>set acc. P a" and "\<forall>a\<in>set xs. P a"
  shows "(rooted \<longrightarrow> ''..'' \<notin> set (foldl (clean_step rooted) acc xs))
     \<and> ''..'' \<notin> set (dropWhile (\<lambda>e. e = ''..'') (foldl (clean_step rooted) acc xs))
     \<and> (\<forall>a\<in>set (foldl (clean_step rooted) acc xs). P a)"
  using assms
proof (induction xs arbitrary: acc)
  case Nil
  then show ?case by simp
next
  case (Cons x xs)
  have px: "P x" using Cons.prems(4) by simp
  note s = clean_step_inv[OF Cons.prems(1,2,3) px]
  show ?case
    using Cons.IH[of "clean_step rooted acc x"] s Cons.prems(4) by simp
qed

lemma IsAbs_joinPath:
  "out \<noteq> [] \<Longrightarrow> \<forall>el\<in>set out. el \<noteq> [] \<and> CHR ''/'' \<notin> set el \<Longrightarrow>
     joinPath out \<noteq> [] \<and> \<not> IsAbs (joinPath out)"
proof (induction out rule: joinPath.induct)
  case 1
  then show ?case by simp
next
  case (2 x)
  then show ?case by (cases x) auto
next
  case (3 x y ys)
  then show ?case by (cases x) auto
qed

lemma Clean_dot: "Clean ''.'' = ''.''"
  by (simp add: Clean_def)

lemma Clean_idem: "Clean (Clean p) = Clean p"
proof (cases "p = []")
  case True
  have "Clean p = ''.''" using True by (simp add: Clean_def)
  then show ?thesis by (simp add: Clean_dot)
next
  case False
  define rooted where "rooted = IsAbs p"
  define els where "els = filter (\<lambda>el. el \<noteq> [] \<and> el \<noteq> ''.'') (Split CHR ''/'' p)"
  define out where "out = foldl (clean_step rooted) [] els"
  let ?P = "\<lambda>el. el \<noteq> [] \<and> el \<noteq> ''.'' \<and> CHR ''/'' \<notin> set el"
  have pe: "\<forall>a\<in>set els. ?P a"
    by (auto simp: els_def dest: Split_fields_no_sep)
  have inv: "(rooted \<longrightarrow> ''..'' \<notin> set out)"
    "''..'' \<notin> set (dropWhile (\<lambda>e. e = ''..'') out)" "\<forall>a\<in>set out. ?P a"
    using foldl_clean_step_inv[of rooted "[]" ?P els] pe unfolding out_def by simp_all
  have c: "Clean p = (if rooted then CHR ''/'' # joinPath out
                      else if out = [] then ''.'' else joinPath out)"
    using False by (simp add: Clean_def rooted_def els_def out_def Let_def)
  have f: "filter (\<lambda>el. el \<noteq> [] \<and> el \<noteq> ''.'') out = out"
    using inv(3) by (simp add: filter_id_conv)
  have n: "foldl (clean_step rooted) [] out = out"
    using foldl_clean_step_normal[of rooted out "[]"] inv by simp
  show ?thesis
  proof (cases rooted)
    case True
    show ?thesis
    proof (cases "out = []")
      case e: True
      have "Clean p = ''/''" using True e by (simp add: c)
      moreover have "Clean ''/'' = ''/''" by (simp add: Clean_def)
      ultimately show ?thesis by simp
    next
      case ne: False
      have s: "Split CHR ''/'' (joinPath out) = out"
        using ne inv(3) by (simp add: Split_joinPath)
      have "Clean (CHR ''/'' # joinPath out) = CHR ''/'' # joinPath out"
        using True s f n by (simp add: Clean_def Let_def)
      then show ?thesis using True by (simp add: c)
    qed
  next
    case nr: False
    show ?thesis
    proof (cases "out = []")
      case True
      then show ?thesis using nr by (simp add: c Clean_dot)
    next
      case ne: False
      have s: "Split CHR ''/'' (joinPath out) = out"
        using ne inv(3) by (simp add: Split_joinPath)
      have a: "joinPath out \<noteq> [] \<and> \<not> IsAbs (joinPath out)"
        using ne inv(3) by (intro IsAbs_joinPath) auto
      have "Clean (joinPath out) = joinPath out"
        using a s f n nr ne by (simp add: Clean_def Let_def)
      then show ?thesis using nr ne by (simp add: c)
    qed
  qed
qed

subsection \<open>A volume that is already in the set\<close>

lemma Clean_ab: "Clean ''/a/b/'' = ''/a/b''"
  by (simp add: Clean_def clean_step_def)

lemma initialize_tail_volume:
  "fst (snd (initialize_tail v h f c w)) = v"
  by (simp add: initialize_tail_def split: prod.splits option.splits)

lemma initialize_ok_records:
  assumes ok: "fst (initialize v c w) = None"
  shows "map_of (Volumes (fst (snd (snd (initialize v c w))))) (Clean (VolPath v)) \<noteq> None
     \<and> VolPath (fst (snd (initialize v c w))) = Clean (VolPath v)"
proof (cases "map_of (Volumes c) (Clean (VolPath v)) = None")
  case False
  then show ?thesis by (simp add: initialize_def Let_def)
next
  case True
  obtain r1 v1 w1 where
    a: "allocateHostPath (v\<lparr>VolPath := Clean (VolPath v)\<rparr>) c w = (r1, v1, w1)"
    using prod_cases3 by blast
  have k: "VolPath v1 = Clean (VolPath v)"
    using allocateHostPath_fields[OF a] by simp
  have r1: "r1 = None"
    using ok True a by (cases r1) (simp_all add: initialize_def Let_def)
  obtain hostPath where e: "evalsymlinks_of w1 (HostPath v1) = Inr hostPath"
    using ok True a r1 by (cases "evalsymlinks_of w1 (HostPath v1)")
      (simp_all add: initialize_def Let_def)
  obtain full where
    f: "followsymlink_of w1 (Join [basefs c, Clean (VolPath v)]) (basefs c) = Inr full"
    using ok True a r1 e k
    by (cases "followsymlink_of w1 (Join [basefs c, Clean (VolPath v)]) (basefs c)")
      (simp_all add: initialize_def Let_def)
  show ?thesis
    using a[unfolded r1] 
    by (simp add: initialize_reaches_tail[OF True a[unfolded r1] e f] initialize_tail_container
        initialize_tail_volume update_conv' k)
qed

text \<open>
  Claim C7. Initializing a volume whose cleaned container path is already a key of the
  container's volume set is a no-op: \<^const>\<open>initialize\<close> returns no error and leaves the
  container, hence both of its maps, and the world as they were; only the volume's own
  path is cleaned. In particular, after an initialization that has returned no error, a
  second call, on the volume as the first call has left it or on the volume as it was
  given, returns no error and changes nothing.
\<close>

theorem initialize_existing_noop:
  "(map_of (Volumes c) (Clean (VolPath v)) \<noteq> None \<longrightarrow>
      initialize v c w = (None, v\<lparr>VolPath := Clean (VolPath v)\<rparr>, c, w))
   \<and> (initialize v c w = (None, v1, c1, w1) \<longrightarrow>
        initialize v1 c1 w1 = (None, v1, c1, w1)
        \<and> initialize v c1 w1 = (None, v\<lparr>VolPath := Clean (VolPath v)\<rparr>, c1, w1))"
proof (intro conjI impI)
  assume "map_of (Volumes c) (Clean (VolPath v)) \<noteq> None"
  then show "initialize v c w = (None, v\<lparr>VolPath := Clean (VolPath v)\<rparr>, c, w)"
    by (simp add: initialize_def Let_def)
next
  assume r: "initialize v c w = (None, v1, c1, w1)"
  then have "fst (initialize v c w) = None" by simp
  from initialize_ok_records[OF this]
  have m: "map_of (Volumes c1) (Clean (VolPath v)) \<noteq> None"
    and p: "VolPath v1 = Clean (VolPath v)"
    by (simp_all add: r)
  have "Clean (VolPath v1) = VolPath v1" by (simp add: p Clean_idem)
  then show "initialize v1 c1 w1 = (None, v1, c1, w1)"
    using m p by (simp add: initialize_def Let_def)
  show "initialize v c1 w1 = (None, v\<lparr>VolPath := Clean (VolPath v)\<rparr>, c1, w1)"
    using m by (simp add: initialize_def Let_def)
qed

lemma managedVolume_ok: "fst (initialize managedVolume freshContainer demoWorld) = None"
  by (simp add: run_defs)

theorem initialize_existing_noop_witness:
  "map_of (Volumes demoContainer) (Clean ''/a/b/'') \<noteq> None
   \<and> initialize \<lparr>HostPath = ''/other'', VolPath = ''/a/b/'', isReadWrite = False,
                  isBindMount = True\<rparr> demoContainer demoWorld =
       (None, \<lparr>HostPath = ''/other'', VolPath = ''/a/b'', isReadWrite = False,
                isBindMount = True\<rparr>, demoContainer, demoWorld)
   \<and> fst (initialize managedVolume freshContainer demoWorld) = None
   \<and> (let first = initialize managedVolume freshContainer demoWorld;
           v1 = fst (snd first); c1 = fst (snd (snd first)); w1 = snd (snd (snd first))
       in initialize v1 c1 w1 = (None, v1, c1, w1)
          \<and> initialize managedVolume c1 w1 = (None, managedVolume, c1, w1)
          \<and> Volumes c1 = [(''/data'', ''/vol/1'')])"
proof -
  have h: "map_of (Volumes demoContainer) (Clean ''/a/b/'') \<noteq> None"
    by (simp add: Clean_ab demoContainer_def)
  have 1: "initialize \<lparr>HostPath = ''/other'', VolPath = ''/a/b/'', isReadWrite = False,
                  isBindMount = True\<rparr> demoContainer demoWorld =
       (None, \<lparr>HostPath = ''/other'', VolPath = ''/a/b'', isReadWrite = False,
                isBindMount = True\<rparr>, demoContainer, demoWorld)"
    using h initialize_existing_noop [of demoContainer
      "\<lparr>HostPath = ''/other'', VolPath = ''/a/b/'', isReadWrite = False, isBindMount = True\<rparr>"
      demoWorld]
    by (simp add: Clean_ab)
  obtain r v1 c1 w1 where
    res: "initialize managedVolume freshContainer demoWorld = (r, v1, c1, w1)"
    using prod_cases4 by blast
  have r: "r = None" using managedVolume_ok by (simp add: res)
  have "Volumes (fst (snd (snd (initialize managedVolume freshContainer demoWorld)))) =
      [(''/data'', ''/vol/1'')]"
    by (simp add: run_defs)
  then have c1: "Volumes c1 = [(''/data'', ''/vol/1'')]"
    by (simp add: res)
  have mv: "managedVolume\<lparr>VolPath := Clean (VolPath managedVolume)\<rparr> = managedVolume"
    by (simp add: managedVolume_def Clean_data)
  have 2: "initialize v1 c1 w1 = (None, v1, c1, w1)
     \<and> initialize managedVolume c1 w1 = (None, managedVolume, c1, w1)"
    using initialize_existing_noop [of freshContainer managedVolume demoWorld v1 c1 w1]
      res r mv by simp
  show ?thesis
    using h 1 managedVolume_ok 2 c1 by (simp add: res Let_def)
qed

end
